theory Spec2Isabelle
  imports Main "HOL-Library.Sublist"
begin

section \<open>Data model\<close>

text \<open>
  The feed-ingestion pipeline of \<^verbatim>\<open>common.ts\<close> and the trigger endpoint of
  \<^verbatim>\<open>api/articles/update.ts\<close>.

  Every value the pipeline moves around is a JavaScript string or \<^verbatim>\<open>undefined\<close>: it
  is a \<open>string option\<close>, \<open>None\<close> being \<^verbatim>\<open>undefined\<close> (and SQL's NULL, which the
  driver binds for \<^verbatim>\<open>undefined\<close>). A rejected promise is \<open>Inl\<close> of its reason.
\<close>

datatype error = Rejection string

record RSSSource =
  feedUrl :: string
  name :: string
  id' :: string
  isDisabled :: "bool option"

text \<open>
  The fields of \<^verbatim>\<open>Parser.Item\<close> that the pipeline reads or that carry the published
  date; \<open>content_encoded\<close> is the property \<^verbatim>\<open>"content:encoded"\<close>.
\<close>

record Item =
  link :: "string option"
  title :: "string option"
  content :: "string option"
  content_encoded :: "string option"
  summary :: "string option"
  contentSnippet :: "string option"
  creator :: "string option"
  pubDate :: "string option"
  isoDate :: "string option"

type_synonym RSSResult = "RSSSource \<times> Item"

text \<open>The schema \<^verbatim>\<open>ArticleAnalysis\<close>: three string fields.\<close>

record ArticleAnalysis =
  a_headline :: string
  a_source :: string
  a_summary :: string

text \<open>
  An object with string keys (\<^verbatim>\<open>Record<string, any>\<close>) is the list of its
  properties; reading a property that the object does not have gives \<^verbatim>\<open>undefined\<close>.
\<close>

type_synonym obj = "(string \<times> string option) list"

definition property :: "obj \<Rightarrow> string \<Rightarrow> string option" where
  "property row col = (case map_of row col of None \<Rightarrow> None | Some v \<Rightarrow> v)"

text \<open>JavaScript truthiness of a string or \<^verbatim>\<open>undefined\<close>, and the operator \<^verbatim>\<open>||\<close>.\<close>

definition truthy :: "string option \<Rightarrow> bool" where
  "truthy v = (case v of None \<Rightarrow> False | Some s \<Rightarrow> s \<noteq> [])"

definition js_or :: "string option \<Rightarrow> string option \<Rightarrow> string option" where
  "js_or a b = (if truthy a then a else b)"

record config =
  llmModel :: string
  rssItemLimit :: nat
  sources :: "RSSSource list"

definition CONFIG :: config where
  "CONFIG = \<lparr> llmModel = ''o3-mini'', rssItemLimit = 50,
     sources =
       [\<lparr> feedUrl = ''https://moxie.foxnews.com/google-publisher/politics.xml'',
           name = ''Fox News'', id' = ''fox'', isDisabled = None \<rparr>,
        \<lparr> feedUrl = ''https://rss.nytimes.com/services/xml/rss/nyt/HomePage.xml'',
           name = ''New York Times'', id' = ''nyt'', isDisabled = Some True \<rparr>] \<rparr>"

section \<open>The outside world\<close>

text \<open>
  The collaborators the pipeline awaits, as functions of the request, fixed for one run:
  \<^item> \<open>parseURL\<close>: \<^verbatim>\<open>rssParser.parseURL(url)\<close>, giving \<^verbatim>\<open>feed.items\<close>;
  \<^item> \<open>fetch\<close>: \<^verbatim>\<open>fetch(url)\<close> followed by \<^verbatim>\<open>response.text()\<close>; a response has
    a status, which \<^verbatim>\<open>scrapeContent\<close> never reads, and a body;
  \<^item> \<open>readability\<close>: the text that JSDOM and Readability extract from the body,
    \<^verbatim>\<open>new Readability(doc).parse()?.textContent\<close>, \<open>None\<close> when there is none, or
    the exception that either library throws;
  \<^item> \<open>llm\<close>: the completion call on the prompt that \<^verbatim>\<open>createPrompt\<close> builds from a
    title and a content, giving \<^verbatim>\<open>choices[0].message.parsed\<close>, \<open>None\<close> for \<^verbatim>\<open>null\<close>;
    the call rejects when the model's output does not fit the schema;
  \<^item> \<open>ENABLE_ARTICLE_UPDATE\<close>: the environment variable of that name.
\<close>

record response =
  status :: nat
  body :: string

record env =
  parseURL :: "string \<Rightarrow> error + Item list"
  fetch :: "string \<Rightarrow> error + response"
  readability :: "string \<Rightarrow> error + string option"
  llm :: "string \<Rightarrow> string \<Rightarrow> error + ArticleAnalysis option"
  ENABLE_ARTICLE_UPDATE :: "string option"

text \<open>
  Storage: the rows of the table \<^verbatim>\<open>articles\<close>, whether the engine answers, and the
  write statements it has executed (query text and bound parameters).
\<close>

record storage =
  articles :: "obj list"
  online :: bool
  writes :: "(string \<times> string option list) list"

section \<open>Promises\<close>

text \<open>
  \<^verbatim>\<open>Promise.all\<close>: resolves with every value when every promise resolves and rejects
  as soon as one rejects. Which reason it rejects with depends on the order of settlement,
  which is not modelled: the first rejection in list order is taken.
\<close>

fun promise_all :: "(error + 'a) list \<Rightarrow> error + 'a list" where
  "promise_all [] = Inr []"
| "promise_all (p # ps) =
     (case p of
        Inl e \<Rightarrow> Inl e
      | Inr x \<Rightarrow> (case promise_all ps of Inl e \<Rightarrow> Inl e | Inr xs \<Rightarrow> Inr (x # xs)))"

section \<open>Feed aggregation\<close>

text \<open>
  \<^verbatim>\<open>isDisabled\<close> is an optional boolean; \<^verbatim>\<open>if (source.isDisabled)\<close> holds when it is
  present and true. \<open>feedRequest\<close> is the callback that \<^verbatim>\<open>parseFeeds\<close> maps over the
  sources: nothing for a disabled source, without fetching; otherwise the first
  \<^verbatim>\<open>rssItemLimit\<close> items of the feed, each paired with the source.
\<close>

definition truthy_flag :: "bool option \<Rightarrow> bool" where
  "truthy_flag b = (b = Some True)"

definition feedRequest :: "config \<Rightarrow> env \<Rightarrow> RSSSource \<Rightarrow> error + RSSResult list" where
  "feedRequest cfg e source =
     (if truthy_flag (isDisabled source) then Inr []
      else (case parseURL e (feedUrl source) of
              Inl err \<Rightarrow> Inl err
            | Inr items \<Rightarrow> Inr (map (\<lambda>item. (source, item)) (take (rssItemLimit cfg) items))))"

text \<open>
  \<^verbatim>\<open>parseFeeds\<close> reads the constant \<^verbatim>\<open>CONFIG\<close>; here the configuration is a
  parameter, and the trigger endpoint passes \<open>CONFIG\<close>.
\<close>

definition parseFeeds :: "config \<Rightarrow> env \<Rightarrow> error + RSSResult list" where
  "parseFeeds cfg e =
     (case promise_all (map (feedRequest cfg e) (sources cfg)) of
        Inl err \<Rightarrow> Inl err
      | Inr results \<Rightarrow> Inr (concat results))"

section \<open>Dedup filter\<close>

text \<open>
  \<^verbatim>\<open>SELECT * FROM articles WHERE url = ANY(urls)\<close>: the rows whose url is not NULL and
  equals a non-NULL element of the array.
\<close>

definition sql_select_url_any :: "storage \<Rightarrow> string option list \<Rightarrow> error + obj list" where
  "sql_select_url_any st urls =
     (if \<not> online st then Inl (Rejection ''storage'')
      else Inr (filter (\<lambda>row. property row ''url'' \<noteq> None \<and> property row ''url'' \<in> set urls)
                  (articles st)))"

text \<open>
  \<^verbatim>\<open>filterExistingItems\<close>: one lookup with the links of all candidates, then the
  candidates whose link is not among the urls of the rows found (\<^verbatim>\<open>includes\<close> compares
  with \<^verbatim>\<open>undefined\<close> like with any other value).
\<close>

definition filterExistingItems :: "storage \<Rightarrow> RSSResult list \<Rightarrow> error + RSSResult list" where
  "filterExistingItems st items =
     (let urls = map (\<lambda>(source, item). link item) items in
      case sql_select_url_any st urls of
        Inl err \<Rightarrow> Inl err
      | Inr rows \<Rightarrow>
          (let existingUrls = map (\<lambda>row. property row ''url'') rows in
           Inr (filter (\<lambda>(source, item). link item \<notin> set existingUrls) items)))"

section \<open>Content resolution, analysis and the completeness filter\<close>

text \<open>
  \<^verbatim>\<open>scrapeContent\<close> has no handler: a rejected fetch and an exception of the extraction
  both reject it. A missing extraction gives the empty string (\<^verbatim>\<open>?? ""\<close>).
\<close>

definition scrapeContent :: "env \<Rightarrow> string \<Rightarrow> error + string" where
  "scrapeContent e url =
     (case fetch e url of
        Inl err \<Rightarrow> Inl err
      | Inr r \<Rightarrow>
          (case readability e (body r) of
             Inl err \<Rightarrow> Inl err
           | Inr fetchedContent \<Rightarrow> Inr (case fetchedContent of None \<Rightarrow> [] | Some t \<Rightarrow> t)))"

text \<open>The default parameters of \<^verbatim>\<open>analyzeContent\<close> replace \<^verbatim>\<open>undefined\<close> by \<^verbatim>\<open>""\<close>.\<close>

definition default_empty :: "string option \<Rightarrow> string" where
  "default_empty v = (case v of None \<Rightarrow> [] | Some s \<Rightarrow> s)"

definition analyzeContent ::
  "env \<Rightarrow> string option \<Rightarrow> string option \<Rightarrow> error + ArticleAnalysis option" where
  "analyzeContent e t c = llm e (default_empty t) (default_empty c)"

text \<open>
  The first half of the callback of \<^verbatim>\<open>processFeeds\<close>: the item's content becomes its
  encoded content and, when the item has a link and no content, the scraped text. The
  result comes with the URLs that were handed to \<^verbatim>\<open>scrapeContent\<close>.
\<close>

definition resolveContent :: "env \<Rightarrow> Item \<Rightarrow> string list \<times> (error + Item)" where
  "resolveContent e item0 =
     (let item = item0\<lparr> content := content_encoded item0 \<rparr> in
      case link item of
        None \<Rightarrow> ([], Inr item)
      | Some url \<Rightarrow>
          (if url \<noteq> [] \<and> \<not> truthy (content item)
           then ([url], case scrapeContent e url of
                          Inl err \<Rightarrow> Inl err
                        | Inr scrapedContent \<Rightarrow> Inr (item\<lparr> content := Some scrapedContent \<rparr>))
           else ([], Inr item)))"

text \<open>
  The object that the callback returns, with its eight properties in the order of the
  source; \<^verbatim>\<open>analysis?.source\<close> is \<^verbatim>\<open>undefined\<close> when the analysis is \<^verbatim>\<open>null\<close>.
\<close>

definition assemble :: "RSSSource \<Rightarrow> Item \<Rightarrow> ArticleAnalysis option \<Rightarrow> obj" where
  "assemble source item analysis =
     [(''url'', link item),
      (''title'', title item),
      (''publication'', Some (name source)),
      (''authors'', creator item),
      (''content'', js_or (js_or (content item) (summary item)) (contentSnippet item)),
      (''source'', map_option a_source analysis),
      (''headline'', map_option a_headline analysis),
      (''summary'', map_option a_summary analysis)]"

text \<open>
  The callback that \<^verbatim>\<open>processFeeds\<close> maps over the candidates: resolution of the content,
  then the analysis of title and content, then the object. Neither await has a handler.
\<close>

definition processItem :: "env \<Rightarrow> RSSResult \<Rightarrow> string list \<times> (error + obj)" where
  "processItem e = (\<lambda>(source, item0).
     (case resolveContent e item0 of
        (scraped, Inl err) \<Rightarrow> (scraped, Inl err)
      | (scraped, Inr item) \<Rightarrow>
          (scraped, case analyzeContent e (title item) (content item) of
                      Inl err \<Rightarrow> Inl err
                    | Inr analysis \<Rightarrow> Inr (assemble source item analysis))))"

text \<open>The predicate of the final \<^verbatim>\<open>filter\<close>.\<close>

definition complete :: "obj \<Rightarrow> bool" where
  "complete article \<longleftrightarrow>
     truthy (property article ''content'') \<and> truthy (property article ''headline'') \<and>
     truthy (property article ''summary'') \<and> truthy (property article ''source'')"

text \<open>
  Every callback starts, and starts its page fetch, before any of them settles, so the
  URLs scraped are those of all the items; the articles are there only when no callback
  rejects.
\<close>

definition processFeeds :: "env \<Rightarrow> RSSResult list \<Rightarrow> string list \<times> (error + obj list)" where
  "processFeeds e feeds =
     (let settled = map (processItem e) feeds in
      (concat (map fst settled),
       case promise_all (map snd settled) of
         Inl err \<Rightarrow> Inl err
       | Inr arts \<Rightarrow> Inr (filter complete arts)))"

section \<open>Batch persistence\<close>

text \<open>
  Template literals print a number in decimal (the numbers printed here are far below
  the range where JavaScript switches to exponent notation), and \<^verbatim>\<open>join\<close> puts
  the separator between the elements.
\<close>

definition digit_char :: "nat \<Rightarrow> char" where
  "digit_char d = ''0123456789'' ! d"

fun show_nat :: "nat \<Rightarrow> string" where
  "show_nat n = (if n < 10 then [digit_char n] else show_nat (n div 10) @ [digit_char (n mod 10)])"

declare show_nat.simps [simp del]

fun join :: "string \<Rightarrow> string list \<Rightarrow> string" where
  "join sep [] = []"
| "join sep [x] = x"
| "join sep (x # y # ys) = x @ sep @ join sep (y # ys)"

definition columns :: "string list" where
  "columns = [''url'', ''title'', ''publication'', ''authors'', ''date_published'',
              ''content'', ''source'', ''headline'', ''summary'']"

text \<open>The callback that prints the placeholders of the row at \<open>rowIndex\<close>.\<close>

definition rowPlaceholders :: "nat \<Rightarrow> string" where
  "rowPlaceholders rowIndex =
     (let start = rowIndex * length columns + 1 in
      ''('' @ join '', '' (map (\<lambda>i. ''$'' @ show_nat (start + i)) [0..<length columns]) @ '')'')"

text \<open>
  The array \<^verbatim>\<open>values\<close> and the text \<^verbatim>\<open>query\<close> that \<^verbatim>\<open>insertArticles\<close> builds from
  its rows.
\<close>

definition insertValues :: "obj list \<Rightarrow> string option list" where
  "insertValues rows = concat (map (\<lambda>row. map (\<lambda>col. property row col) columns) rows)"

definition insertQuery :: "obj list \<Rightarrow> string" where
  "insertQuery rows =
     (let placeholders = join '', '' (map rowPlaceholders [0..<length rows]) in
      ''INSERT INTO articles ('' @ join '', '' columns @ '') VALUES '' @ placeholders)"

text \<open>
  The engine's reading of an \<^verbatim>\<open>INSERT INTO articles (c1, ...) VALUES (...), ...\<close>
  statement, which is the only statement the program hands to \<^verbatim>\<open>sql(query, values)\<close>:
  the first parenthesised group lists the columns, each further group is one new row, and
  a placeholder \<^verbatim>\<open>$k\<close> stands for the \<open>k\<close>-th parameter, counted from 1. The driver
  binds NULL for \<^verbatim>\<open>undefined\<close>. There is no uniqueness constraint on the table.
\<close>

definition digit_val :: "char \<Rightarrow> nat" where
  "digit_val c = length (takeWhile (\<lambda>d. d \<noteq> c) ''0123456789'')"

definition is_digit :: "char \<Rightarrow> bool" where
  "is_digit c \<longleftrightarrow> c \<in> set ''0123456789''"

definition read_nat :: "string \<Rightarrow> nat" where
  "read_nat ds = foldl (\<lambda>acc c. acc * 10 + digit_val c) 0 ds"

fun paren_groups :: "string \<Rightarrow> string list" where
  "paren_groups [] = []"
| "paren_groups (c # cs) =
     (if c = CHR ''('' then takeWhile (\<lambda>d. d \<noteq> CHR '')'') cs # paren_groups cs
      else paren_groups cs)"

fun placeholder_refs :: "string \<Rightarrow> nat list" where
  "placeholder_refs [] = []"
| "placeholder_refs (c # cs) =
     (if c = CHR ''$'' then read_nat (takeWhile is_digit cs) # placeholder_refs cs
      else placeholder_refs cs)"

fun column_names :: "string \<Rightarrow> string \<Rightarrow> string list" where
  "column_names acc [] = (if acc = [] then [] else [acc])"
| "column_names acc (c # cs) =
     (if c = CHR '','' \<or> c = CHR '' ''
      then (if acc = [] then column_names [] cs else acc # column_names [] cs)
      else column_names (acc @ [c]) cs)"

definition bound_param :: "string option list \<Rightarrow> nat \<Rightarrow> string option" where
  "bound_param params k = (if 1 \<le> k \<and> k \<le> length params then params ! (k - 1) else None)"

definition inserted_rows :: "string \<Rightarrow> string option list \<Rightarrow> obj list" where
  "inserted_rows query params =
     (case paren_groups query of
        [] \<Rightarrow> []
      | cols # groups \<Rightarrow>
          map (\<lambda>g. zip (column_names [] cols) (map (bound_param params) (placeholder_refs g)))
            groups)"

text \<open>
  \<^verbatim>\<open>sql(query, values)\<close>: rejected when the engine does not answer; otherwise the rows
  are added and the statement is recorded.
\<close>

definition sql_query :: "storage \<Rightarrow> string \<Rightarrow> string option list \<Rightarrow> error + storage" where
  "sql_query st query params =
     (if \<not> online st then Inl (Rejection ''storage'')
      else Inr (st\<lparr> articles := articles st @ inserted_rows query params,
                    writes := writes st @ [(query, params)] \<rparr>))"

definition insertArticles :: "storage \<Rightarrow> obj list \<Rightarrow> error + storage" where
  "insertArticles st rows =
     (if length rows = 0 then Inr st
      else sql_query st (insertQuery rows) (insertValues rows))"

section \<open>The trigger endpoint\<close>

text \<open>The response is its status and the message of its JSON body.\<close>

definition update_GET :: "env \<Rightarrow> storage \<Rightarrow> error + storage \<times> nat \<times> string" where
  "update_GET e st =
     (if ENABLE_ARTICLE_UPDATE e \<noteq> Some ''true''
      then Inr (st, 400, ''Update endpoint is disabled'')
      else
        (case parseFeeds CONFIG e of
           Inl err \<Rightarrow> Inl err
         | Inr parsedFeeds \<Rightarrow>
             (case filterExistingItems st parsedFeeds of
                Inl err \<Rightarrow> Inl err
              | Inr newFeeds \<Rightarrow>
                  (case snd (processFeeds e newFeeds) of
                     Inl err \<Rightarrow> Inl err
                   | Inr arts \<Rightarrow>
                       (case insertArticles st arts of
                          Inl err \<Rightarrow> Inl err
                        | Inr st' \<Rightarrow> Inr (st', 200, ''Articles fetched successfully''))))))"

section \<open>Notions of the statements\<close>

text \<open>A URL is stored when some row of the table has it as its url; NULL is no URL.\<close>

definition url_stored :: "storage \<Rightarrow> string option \<Rightarrow> bool" where
  "url_stored st u \<longleftrightarrow> u \<noteq> None \<and> u \<in> set (map (\<lambda>row. property row ''url'') (articles st))"

text \<open>
  What a source adds to the aggregate when a feed that cannot be fetched counts as empty.
\<close>

definition contribution :: "config \<Rightarrow> env \<Rightarrow> RSSSource \<Rightarrow> RSSResult list" where
  "contribution cfg e source =
     (if truthy_flag (isDisabled source) then []
      else (case parseURL e (feedUrl source) of
              Inl err \<Rightarrow> []
            | Inr items \<Rightarrow> map (Pair source) (take (rssItemLimit cfg) items)))"

text \<open>
  The parameter numbers that the placeholders of the row at \<open>r\<close> should carry, and the
  text between the parentheses of that row.
\<close>

definition row_refs :: "nat \<Rightarrow> nat list" where
  "row_refs r = map (\<lambda>i. r * length columns + 1 + i) [0..<length columns]"

definition rowGroup :: "nat \<Rightarrow> string" where
  "rowGroup r = join '', '' (map (\<lambda>k. CHR ''$'' # show_nat k) (row_refs r))"


section \<open>Concrete runs\<close>

text \<open>The two registry entries, some feed items, an environment in which everything works,
  and variations of it.\<close>

definition fox :: RSSSource where
  "fox = \<lparr> feedUrl = ''https://moxie.foxnews.com/google-publisher/politics.xml'',
           name = ''Fox News'', id' = ''fox'', isDisabled = None \<rparr>"

definition nyt :: RSSSource where
  "nyt = \<lparr> feedUrl = ''https://rss.nytimes.com/services/xml/rss/nyt/HomePage.xml'',
           name = ''New York Times'', id' = ''nyt'', isDisabled = Some True \<rparr>"

definition blank :: Item where
  "blank = \<lparr> link = None, title = None, content = None, content_encoded = None,
     summary = None, contentSnippet = None, creator = None, pubDate = None, isoDate = None \<rparr>"

definition item1 :: Item where
  "item1 = blank\<lparr> link := Some ''https://news.example/1'', title := Some ''One'',
     content_encoded := Some ''Body one'', pubDate := Some ''Mon, 02 Nov 2026 10:00:00 GMT'' \<rparr>"

definition item2 :: Item where
  "item2 = blank\<lparr> link := Some ''https://news.example/2'', title := Some ''Two'',
     contentSnippet := Some ''Snippet two'' \<rparr>"

definition item3 :: Item where
  "item3 = blank\<lparr> title := Some ''Three'', summary := Some ''Summary three'' \<rparr>"

definition fact :: ArticleAnalysis where
  "fact = \<lparr> a_headline = ''H'', a_source = ''S'', a_summary = ''Sum'' \<rparr>"

definition world :: env where
  "world = \<lparr> parseURL = (\<lambda>url. Inr [item1, item2]),
     fetch = (\<lambda>url. Inr \<lparr> status = 200, body = ''<p>Body two</p>'' \<rparr>),
     readability = (\<lambda>html. Inr (Some ''Body two'')),
     llm = (\<lambda>t c. Inr (Some fact)),
     ENABLE_ARTICLE_UPDATE = Some ''true'' \<rparr>"

definition feed_down :: env where
  "feed_down = world\<lparr> parseURL := (\<lambda>url. Inl (Rejection ''ECONNREFUSED'')) \<rparr>"

definition long_feed :: env where
  "long_feed = world\<lparr> parseURL := (\<lambda>url. Inr (replicate 60 item2)) \<rparr>"

definition two_feeds :: config where
  "two_feeds = CONFIG\<lparr> sources := [fox, nyt\<lparr> isDisabled := None \<rparr>] \<rparr>"

definition nyt_down :: env where
  "nyt_down = world\<lparr> parseURL := (\<lambda>url. if url = feedUrl nyt then Inl (Rejection ''ECONNREFUSED'')
                                      else Inr [item1]) \<rparr>"

definition shelf :: storage where
  "shelf = \<lparr> articles = [[(''url'', Some ''https://news.example/1''), (''title'', Some ''One'')]],
     online = True, writes = [] \<rparr>"

definition article :: "string option \<Rightarrow> string \<Rightarrow> string \<Rightarrow> obj" where
  "article url t c =
     [(''url'', url), (''title'', Some t), (''publication'', Some ''Fox News''),
      (''authors'', None), (''content'', Some c), (''source'', Some ''S''),
      (''headline'', Some ''H''), (''summary'', Some ''Sum'')]"

definition article1 :: obj where
  "article1 = article (Some ''https://news.example/1'') ''One'' ''Body one''"

definition article2 :: obj where
  "article2 = article (Some ''https://news.example/2'') ''Two'' ''Body two''"

definition article3 :: obj where
  "article3 = article None ''Three'' ''Summary three''"

definition page_down :: env where
  "page_down = world\<lparr> fetch := (\<lambda>url. Inl (Rejection ''ETIMEDOUT'')) \<rparr>"

text \<open>
  A server that answers 404 with the body \<^verbatim>\<open>Not Found\<close>, from which that text is
  extracted, and one that answers 404 with an empty body, from which nothing is.
\<close>

definition not_found :: env where
  "not_found = world\<lparr> fetch := (\<lambda>url. Inr \<lparr> status = 404, body = ''Not Found'' \<rparr>),
     readability := (\<lambda>html. Inr (Some ''Not Found'')) \<rparr>"

definition empty_answer :: env where
  "empty_answer = world\<lparr> fetch := (\<lambda>url. Inr \<lparr> status = 404, body = [] \<rparr>),
     readability := (\<lambda>html. Inr None) \<rparr>"

definition off_schema :: env where
  "off_schema = world\<lparr> llm := (\<lambda>t c. if t = ''Two'' then Inl (Rejection ''schema'')
                                   else Inr (Some fact)) \<rparr>"

definition refusal :: env where
  "refusal = world\<lparr> llm := (\<lambda>t c. if t = ''Two'' then Inr None else Inr (Some fact)) \<rparr>"

definition bare :: storage where
  "bare = \<lparr> articles = [], online = True, writes = [] \<rparr>"

definition stored :: "string option \<Rightarrow> string \<Rightarrow> string \<Rightarrow> obj" where
  "stored url t c =
     [(''url'', url), (''title'', Some t), (''publication'', Some ''Fox News''),
      (''authors'', None), (''date_published'', None), (''content'', Some c),
      (''source'', Some ''S''), (''headline'', Some ''H''), (''summary'', Some ''Sum'')]"


section \<open>Evaluating concrete runs\<close>

lemmas fixture_defs = world_def page_down_def not_found_def empty_answer_def off_schema_def refusal_def
  item1_def item2_def item3_def blank_def fact_def fox_def nyt_def
  article_def article1_def article2_def article3_def

lemmas run_defs = processFeeds_def processItem_def resolveContent_def scrapeContent_def
  analyzeContent_def assemble_def complete_def property_def truthy_def js_or_def default_empty_def

lemmas text_defs = insertQuery_def insertValues_def rowPlaceholders_def columns_def
  show_nat.simps digit_char_def upt_rec property_def


section \<open>Promise.all\<close>

lemma promise_all_map_Inr: "promise_all (map Inr xs) = Inr xs"
  by (induction xs) auto

lemma promise_all_Inr: "promise_all ps = Inr xs \<longleftrightarrow> ps = map Inr xs"
proof
  show "promise_all ps = Inr xs \<Longrightarrow> ps = map Inr xs"
    by (induction ps arbitrary: xs) (auto split: sum.splits)
qed (simp add: promise_all_map_Inr)

lemma promise_all_Inl: "isl (promise_all ps) \<longleftrightarrow> (\<exists>p\<in>set ps. isl p)"
  by (induction ps) (auto split: sum.splits)

lemma promise_all_map:
  "\<forall>x\<in>set xs. f x = Inr (g x) \<Longrightarrow> promise_all (map f xs) = Inr (map g xs)"
  by (induction xs) auto

section \<open>Feed aggregation: limits and failures\<close>

lemma sources_CONFIG: "sources CONFIG = [fox, nyt]"
  by (simp add: CONFIG_def fox_def nyt_def)

lemma feedRequest_contribution:
  "\<not> isl (feedRequest cfg e s) \<Longrightarrow> feedRequest cfg e s = Inr (contribution cfg e s)"
  by (auto simp: feedRequest_def contribution_def truthy_flag_def
      split: sum.splits if_splits)

lemma feedRequest_isl:
  "isl (feedRequest cfg e s) \<longleftrightarrow>
   \<not> truthy_flag (isDisabled s) \<and> isl (parseURL e (feedUrl s))"
  by (auto simp: feedRequest_def split: sum.splits)

lemma parseFeeds_resolved:
  assumes "\<forall>s\<in>set (sources cfg). truthy_flag (isDisabled s) \<or> \<not> isl (parseURL e (feedUrl s))"
  shows "parseFeeds cfg e = Inr (concat (map (contribution cfg e) (sources cfg)))"
proof -
  have "\<forall>s\<in>set (sources cfg). feedRequest cfg e s = Inr (contribution cfg e s)"
    using assms by (auto simp: feedRequest_isl intro!: feedRequest_contribution)
  then have "promise_all (map (feedRequest cfg e) (sources cfg)) =
      Inr (map (contribution cfg e) (sources cfg))"
    by (rule promise_all_map)
  then show ?thesis by (simp add: parseFeeds_def)
qed

lemma parseFeeds_rejected:
  assumes "s \<in> set (sources cfg)" "\<not> truthy_flag (isDisabled s)" "isl (parseURL e (feedUrl s))"
  shows "isl (parseFeeds cfg e)"
proof -
  have "isl (promise_all (map (feedRequest cfg e) (sources cfg)))"
    unfolding promise_all_Inl using assms by (auto simp: feedRequest_isl)
  then show ?thesis by (auto simp: parseFeeds_def split: sum.splits)
qed

lemma parseFeeds_Inr:
  assumes "parseFeeds cfg e = Inr out"
  shows "out = concat (map (contribution cfg e) (sources cfg))"
proof -
  have "\<forall>s\<in>set (sources cfg). truthy_flag (isDisabled s) \<or> \<not> isl (parseURL e (feedUrl s))"
    using assms parseFeeds_rejected[of _ cfg e] by fastforce
  from parseFeeds_resolved[OF this] assms show ?thesis by simp
qed

lemma contribution_source: "x \<in> set (contribution cfg e s) \<Longrightarrow> fst x = s"
  by (auto simp: contribution_def split: if_splits sum.splits)

lemma filter_contributions:
  "distinct ss \<Longrightarrow> s \<in> set ss \<Longrightarrow>
   filter (\<lambda>(s', item). s' = s) (concat (map (contribution cfg e) ss)) = contribution cfg e s"
proof (induction ss)
  case Nil
  then show ?case by simp
next
  case (Cons a ss)
  have same: "filter (\<lambda>(s', item). s' = s) (contribution cfg e s) = contribution cfg e s"
    by (auto simp: filter_id_conv dest: contribution_source)
  have other: "filter (\<lambda>(s', item). s' = s) (contribution cfg e t) = []" if "t \<noteq> s" for t
    using that by (auto simp: filter_empty_conv dest: contribution_source)
  have none: "filter (\<lambda>(s', item). s' = s) (concat (map (contribution cfg e) ts)) = []"
    if "s \<notin> set ts" for ts
    using that by (induction ts) (auto simp: other)
  show ?case
  proof (cases "a = s")
    case True
    with Cons.prems show ?thesis by (simp add: same none)
  next
    case False
    with Cons show ?thesis by (simp add: other)
  qed
qed

lemma length_contribution: "length (contribution cfg e s) \<le> rssItemLimit cfg"
  by (auto simp: contribution_def split: sum.splits)

text \<open>
  Claim C8. Whenever \<^verbatim>\<open>parseFeeds\<close> returns, the items of its output that come from a
  source of the registry are at most \<open>rssItemLimit\<close> many, and there is none when the
  source is disabled, whatever its feed holds. The pairs of one source are recognised by
  their source, so the entries of the registry are taken to be distinct, as the two
  entries of \<open>CONFIG\<close> are.
\<close>

theorem parseFeeds_limit:
  assumes "parseFeeds cfg e = Inr out" and "distinct (sources cfg)" and "s \<in> set (sources cfg)"
  shows "length (filter (\<lambda>(s', item). s' = s) out) \<le> rssItemLimit cfg \<and>
         (truthy_flag (isDisabled s) \<longrightarrow> filter (\<lambda>(s', item). s' = s) out = [])"
proof -
  have "filter (\<lambda>(s', item). s' = s) out = contribution cfg e s"
    using parseFeeds_Inr[OF assms(1)] filter_contributions[OF assms(2,3)] by simp
  then show ?thesis by (simp add: length_contribution) (simp add: contribution_def)
qed

text \<open>
  At \<open>CONFIG\<close>, with a feed of 60 items: 50 come out for the enabled source, none for
  the disabled one.
\<close>

theorem parseFeeds_limit_witness:
  "parseFeeds CONFIG long_feed = Inr (replicate 50 (fox, item2)) \<and>
   distinct (sources CONFIG) \<and> fox \<in> set (sources CONFIG) \<and> nyt \<in> set (sources CONFIG) \<and>
   length (filter (\<lambda>(s', item). s' = fox) (replicate 50 (fox, item2))) \<le> rssItemLimit CONFIG \<and>
   truthy_flag (isDisabled nyt) \<and>
   filter (\<lambda>(s', item). s' = nyt) (replicate 50 (fox, item2)) = []"
proof -
  have run: "parseFeeds CONFIG long_feed = Inr (replicate 50 (fox, item2))"
    by (simp add: parseFeeds_def sources_CONFIG feedRequest_def truthy_flag_def fox_def nyt_def
        long_feed_def CONFIG_def map_replicate)
  have reg: "distinct (sources CONFIG)" "fox \<in> set (sources CONFIG)" "nyt \<in> set (sources CONFIG)"
    by (simp_all add: sources_CONFIG fox_def nyt_def)
  have off: "truthy_flag (isDisabled nyt)" by (simp add: truthy_flag_def nyt_def)
  from parseFeeds_limit [OF run reg(1) reg(2)] parseFeeds_limit [OF run reg(1) reg(3)] run reg off
  show ?thesis by simp
qed

text \<open>
  Claim C1, as stated: a source whose feed cannot be fetched counts as empty and the other
  sources still contribute, so that \<^verbatim>\<open>parseFeeds\<close> always returns the concatenation of
  the contributions. It does not. At \<open>CONFIG\<close>, when the one enabled feed cannot be
  fetched, the call rejects instead of returning no item; and with two enabled sources, one
  whose feed holds an item and one whose feed cannot be fetched, the call rejects instead
  of returning that item.
\<close>

theorem parseFeeds_isolation_counterexample:
  "concat (map (contribution CONFIG feed_down) (sources CONFIG)) = [] \<and>
   parseFeeds CONFIG feed_down = Inl (Rejection ''ECONNREFUSED'') \<and>
   concat (map (contribution two_feeds nyt_down) (sources two_feeds)) = [(fox, item1)] \<and>
   parseFeeds two_feeds nyt_down = Inl (Rejection ''ECONNREFUSED'')"
  by (simp add: parseFeeds_def feedRequest_def contribution_def truthy_flag_def CONFIG_def
      feed_down_def world_def two_feeds_def nyt_down_def fox_def nyt_def)

text \<open>
  Claim C1, amended. \<^verbatim>\<open>parseFeeds\<close> has no handler around the fetch of a feed: when
  the feed of some enabled source cannot be fetched, the whole call rejects; when every
  enabled feed is fetched, it returns the contributions of the sources in registry order.
\<close>

theorem parseFeeds_all_or_nothing:
  "((\<exists>s\<in>set (sources cfg). \<not> truthy_flag (isDisabled s) \<and> isl (parseURL e (feedUrl s)))
      \<longrightarrow> isl (parseFeeds cfg e)) \<and>
   ((\<forall>s\<in>set (sources cfg). truthy_flag (isDisabled s) \<or> \<not> isl (parseURL e (feedUrl s)))
      \<longrightarrow> parseFeeds cfg e = Inr (concat (map (contribution cfg e) (sources cfg))))"
  using parseFeeds_rejected [of _ cfg e] parseFeeds_resolved [of cfg e] by blast

theorem parseFeeds_all_or_nothing_witness:
  "isl (parseFeeds CONFIG feed_down) \<and>
   parseFeeds CONFIG world = Inr [(fox, item1), (fox, item2)]"
proof -
  have down: "\<exists>s\<in>set (sources CONFIG).
      \<not> truthy_flag (isDisabled s) \<and> isl (parseURL feed_down (feedUrl s))"
    by (simp add: sources_CONFIG truthy_flag_def fox_def feed_down_def)
  have up: "\<forall>s\<in>set (sources CONFIG).
      truthy_flag (isDisabled s) \<or> \<not> isl (parseURL world (feedUrl s))"
    by (simp add: sources_CONFIG world_def)
  have "concat (map (contribution CONFIG world) (sources CONFIG)) = [(fox, item1), (fox, item2)]"
    by (simp add: sources_CONFIG contribution_def truthy_flag_def fox_def nyt_def world_def
        CONFIG_def)
  with parseFeeds_all_or_nothing [of CONFIG feed_down] parseFeeds_all_or_nothing [of CONFIG world]
    down up
  show ?thesis by simp
qed

section \<open>The dedup filter\<close>

lemma filterExistingItems_online:
  assumes "online st"
  shows "filterExistingItems st items =
         Inr (filter (\<lambda>(source, item). \<not> url_stored st (link item)) items)"
proof -
  define urls where "urls = map (\<lambda>(source, item). link item) items"
  define existingUrls where "existingUrls = map (\<lambda>row. property row ''url'')
      (filter (\<lambda>row. property row ''url'' \<noteq> None \<and> property row ''url'' \<in> set urls) (articles st))"
  have known: "link item \<in> set existingUrls \<longleftrightarrow> url_stored st (link item)"
    if "(source, item) \<in> set items" for source item
  proof
    assume "link item \<in> set existingUrls"
    then obtain row where "row \<in> set (articles st)" "property row ''url'' \<noteq> None"
      "link item = property row ''url''" by (auto simp: existingUrls_def)
    then show "url_stored st (link item)" by (auto simp: url_stored_def)
  next
    assume "url_stored st (link item)"
    then obtain row where row: "row \<in> set (articles st)" "link item \<noteq> None"
      "link item = property row ''url''" by (fastforce simp: url_stored_def)
    from that have "link item \<in> set urls" by (force simp: urls_def)
    with row show "link item \<in> set existingUrls" by (auto simp: existingUrls_def)
  qed
  have "filter (\<lambda>(source, item). link item \<notin> set existingUrls) items =
      filter (\<lambda>(source, item). \<not> url_stored st (link item)) items"
    by (rule filter_cong) (auto simp: known)
  with assms show ?thesis
    by (simp add: filterExistingItems_def sql_select_url_any_def urls_def existingUrls_def)
qed



text \<open>
  Claim C6. When the lookup is answered, \<^verbatim>\<open>filterExistingItems\<close> returns the candidates
  whose URL is not stored, in their order: none whose URL is stored remains, and none
  whose URL is not stored is lost.
\<close>

theorem filterExistingItems_exact:
  assumes "online st"
  shows "filterExistingItems st items =
         Inr (filter (\<lambda>(source, item). \<not> url_stored st (link item)) items)"
  using assms by (rule filterExistingItems_online)

text \<open>The first candidate is stored, the second is not.\<close>

theorem filterExistingItems_exact_witness:
  "online shelf \<and> filterExistingItems shelf [(fox, item1), (fox, item2)] = Inr [(fox, item2)]"
  using filterExistingItems_exact [of shelf "[(fox, item1), (fox, item2)]"]
  by (simp add: shelf_def url_stored_def property_def item1_def item2_def blank_def)

section \<open>Running the trigger endpoint\<close>

lemma update_GET_steps:
  assumes "ENABLE_ARTICLE_UPDATE e = Some ''true''"
    and "parseFeeds CONFIG e = Inr parsed"
    and "filterExistingItems st parsed = Inr new"
    and "snd (processFeeds e new) = r"
  shows "update_GET e st =
     (case r of
        Inl err \<Rightarrow> Inl err
      | Inr arts \<Rightarrow>
          (case insertArticles st arts of
             Inl err \<Rightarrow> Inl err
           | Inr st' \<Rightarrow> Inr (st', 200, ''Articles fetched successfully'')))"
  using assms by (simp add: update_GET_def)

lemma parseFeeds_CONFIG:
  "parseURL e (feedUrl fox) = Inr items \<Longrightarrow> length items \<le> 50 \<Longrightarrow>
   parseFeeds CONFIG e = Inr (map (Pair fox) items)"
  by (simp add: parseFeeds_def sources_CONFIG feedRequest_def truthy_flag_def fox_def nyt_def
      CONFIG_def)


section \<open>Content resolution, analysis, completeness\<close>

lemma resolveContent_cases:
  "resolveContent e item =
     (case link item of
        Some url \<Rightarrow>
          if url \<noteq> [] \<and> \<not> truthy (content_encoded item)
          then ([url], case scrapeContent e url of
                         Inl err \<Rightarrow> Inl err
                       | Inr t \<Rightarrow> Inr (item\<lparr> content := Some t \<rparr>))
          else ([], Inr (item\<lparr> content := content_encoded item \<rparr>))
      | None \<Rightarrow> ([], Inr (item\<lparr> content := content_encoded item \<rparr>)))"
  by (auto simp: resolveContent_def Let_def split: option.splits sum.splits)

lemma resolveContent_encoded:
  "truthy (content_encoded item) \<Longrightarrow>
   resolveContent e item = ([], Inr (item\<lparr> content := content_encoded item \<rparr>))"
  by (simp add: resolveContent_cases split: option.splits)

lemma resolveContent_Inr:
  assumes "snd (resolveContent e item) = Inr resolved"
  shows "\<exists>c. resolved = item\<lparr> content := c \<rparr>"
  using assms by (auto simp: resolveContent_cases split: option.splits if_splits sum.splits)

lemma resolveContent_content:
  assumes "snd (resolveContent e item) = Inr resolved"
  shows "content resolved = content_encoded item \<or>
         (\<exists>url t. \<not> truthy (content_encoded item) \<and> link item = Some url \<and>
                  scrapeContent e url = Inr t \<and> content resolved = Some t)"
  using assms by (auto simp: resolveContent_cases split: option.splits if_splits sum.splits)

lemma processItem_split:
  "processItem e (source, item) =
     (fst (resolveContent e item),
      case snd (resolveContent e item) of
        Inl err \<Rightarrow> Inl err
      | Inr resolved \<Rightarrow>
          (case analyzeContent e (title resolved) (content resolved) of
             Inl err \<Rightarrow> Inl err
           | Inr analysis \<Rightarrow> Inr (assemble source resolved analysis)))"
  by (cases "resolveContent e item") (auto simp: processItem_def split: sum.splits)

lemma processFeeds_fst: "fst (processFeeds e feeds) = concat (map (\<lambda>x. fst (processItem e x)) feeds)"
  by (simp add: processFeeds_def Let_def comp_def)

lemma processFeeds_snd:
  "snd (processFeeds e feeds) =
     (case promise_all (map (\<lambda>x. snd (processItem e x)) feeds) of
        Inl err \<Rightarrow> Inl err
      | Inr arts \<Rightarrow> Inr (filter complete arts))"
  by (simp add: processFeeds_def Let_def comp_def)

lemma processFeeds_rejected:
  "isl (snd (processFeeds e feeds)) \<longleftrightarrow> (\<exists>x\<in>set feeds. isl (snd (processItem e x)))"
proof -
  have "isl (snd (processFeeds e feeds)) \<longleftrightarrow>
      isl (promise_all (map (\<lambda>x. snd (processItem e x)) feeds))"
    by (simp add: processFeeds_snd split: sum.splits)
  then show ?thesis by (simp add: promise_all_Inl)
qed

lemma processFeeds_Inr:
  "snd (processFeeds e feeds) = Inr arts \<longleftrightarrow>
   (\<exists>as. map (\<lambda>x. snd (processItem e x)) feeds = map Inr as \<and> arts = filter complete as)"
proof (cases "promise_all (map (\<lambda>x. snd (processItem e x)) feeds)")
  case (Inl err)
  then have "map (\<lambda>x. snd (processItem e x)) feeds \<noteq> map Inr as" for as
    by (auto simp: promise_all_map_Inr)
  with Inl show ?thesis by (simp add: processFeeds_snd)
next
  case (Inr as)
  then have m: "map (\<lambda>x. snd (processItem e x)) feeds = map Inr as"
    by (simp add: promise_all_Inr)
  show ?thesis by (auto simp: processFeeds_snd m promise_all_map_Inr inj_map_eq_map)
qed

lemma processFeeds_member:
  assumes "snd (processFeeds e feeds) = Inr arts" "a \<in> set arts"
  shows "complete a \<and> (\<exists>x\<in>set feeds. snd (processItem e x) = Inr a)"
proof -
  from assms(1) obtain as where as: "map (\<lambda>x. snd (processItem e x)) feeds = map Inr as"
    "arts = filter complete as" by (auto simp: processFeeds_Inr)
  with assms(2) have "complete a" "Inr a \<in> set (map (\<lambda>x. snd (processItem e x)) feeds)" by auto
  then show ?thesis by auto
qed

lemma processItem_Inr:
  assumes "snd (processItem e (source, item)) = Inr a"
  shows "\<exists>resolved analysis. snd (resolveContent e item) = Inr resolved \<and>
           analyzeContent e (title resolved) (content resolved) = Inr analysis \<and>
           a = assemble source resolved analysis"
  using assms by (auto simp: processItem_split split: sum.splits)

lemma find_truthy3:
  "truthy (js_or (js_or a b) c) \<Longrightarrow> List.find truthy [a, b, c] = Some (js_or (js_or a b) c)"
  by (cases "truthy a"; cases "truthy b"; cases "truthy c") (simp_all add: js_or_def)

lemma property_assemble:
  "property (assemble source item analysis) ''content'' =
     js_or (js_or (content item) (summary item)) (contentSnippet item)"
  "property (assemble source item analysis) ''url'' = link item"
  "map_of (assemble source item analysis) ''date_published'' = None"
  "property (assemble source item analysis) ''date_published'' = None"
  by (simp_all add: assemble_def property_def)

text \<open>
  Claim C2. Every article that \<^verbatim>\<open>processFeeds\<close> returns has a non-empty content, headline,
  summary and source, and its content is the first non-empty value among the content of
  its candidate after resolution (the encoded content, or else the scraped text), the
  feed's summary and the feed's content snippet.
\<close>

theorem processFeeds_complete:
  assumes "snd (processFeeds e feeds) = Inr arts" and "a \<in> set arts"
  shows "truthy (property a ''content'') \<and> truthy (property a ''headline'') \<and>
         truthy (property a ''summary'') \<and> truthy (property a ''source'') \<and>
         (\<exists>source item resolved.
            (source, item) \<in> set feeds \<and> snd (resolveContent e item) = Inr resolved \<and>
            (content resolved = content_encoded item \<or>
             (\<exists>url t. \<not> truthy (content_encoded item) \<and> link item = Some url \<and>
                      scrapeContent e url = Inr t \<and> content resolved = Some t)) \<and>
            List.find truthy [content resolved, summary item, contentSnippet item] =
              Some (property a ''content''))"
proof -
  from processFeeds_member[OF assms] obtain source item where
    a: "complete a" and x: "(source, item) \<in> set feeds" "snd (processItem e (source, item)) = Inr a"
    by auto
  from processItem_Inr[OF x(2)] obtain resolved analysis where
    r: "snd (resolveContent e item) = Inr resolved" "a = assemble source resolved analysis"
    by auto
  from resolveContent_Inr[OF r(1)] obtain c where c: "resolved = item\<lparr> content := c \<rparr>" ..
  from a r(2) have "truthy (js_or (js_or (content resolved) (summary resolved)) (contentSnippet resolved))"
    by (simp add: complete_def property_assemble)
  from find_truthy3[OF this] have
    "List.find truthy [content resolved, summary item, contentSnippet item] = Some (property a ''content'')"
    by (simp add: r(2) property_assemble c)
  moreover from resolveContent_content [OF r(1)] have
    "content resolved = content_encoded item \<or>
     (\<exists>url t. \<not> truthy (content_encoded item) \<and> link item = Some url \<and>
              scrapeContent e url = Inr t \<and> content resolved = Some t)" .
  ultimately show ?thesis using a x(1) r(1) unfolding complete_def by blast
qed

text \<open>
  Three candidates: one with encoded content, one that is scraped, one with neither a link
  nor encoded content, whose content is the feed's summary.
\<close>

theorem processFeeds_complete_witness:
  "snd (processFeeds world [(fox, item1), (fox, item2), (fox, item3)]) =
     Inr [article1, article2, article3] \<and>
   article3 \<in> set [article1, article2, article3] \<and>
   truthy (property article3 ''content'') \<and> truthy (property article3 ''headline'') \<and>
   truthy (property article3 ''summary'') \<and> truthy (property article3 ''source'') \<and>
   property article3 ''content'' = Some ''Summary three''"
proof -
  have run: "snd (processFeeds world [(fox, item1), (fox, item2), (fox, item3)]) =
      Inr [article1, article2, article3]"
    by (simp add: run_defs fixture_defs)
  have mem: "article3 \<in> set [article1, article2, article3]" by simp
  from processFeeds_complete [OF run mem] run
  show ?thesis by (simp add: article3_def article_def property_def)
qed

lemma processItem_fst:
  "fst (processItem e (source, item)) =
     (if truthy (link item) \<and> \<not> truthy (content_encoded item)
      then [default_empty (link item)] else [])"
  by (simp add: processItem_split resolveContent_cases truthy_def default_empty_def
      split: option.splits)

text \<open>
  Claim C7. The callback hands the link to \<^verbatim>\<open>scrapeContent\<close> exactly when the link is
  non-empty and there is no non-empty encoded content, and the scrapes of a batch are
  those of its candidates. A candidate with encoded content is analysed on that content,
  whatever the page fetch would answer, and the article's content is the encoded content.
\<close>

theorem encoded_content_is_not_scraped:
  "fst (processItem e (source, item)) =
     (if truthy (link item) \<and> \<not> truthy (content_encoded item)
      then [default_empty (link item)] else []) \<and>
   fst (processFeeds e feeds) = concat (map (\<lambda>x. fst (processItem e x)) feeds) \<and>
   (truthy (content_encoded item) \<longrightarrow>
      snd (processItem e (source, item)) =
        (case analyzeContent e (title item) (content_encoded item) of
           Inl err \<Rightarrow> Inl err
         | Inr analysis \<Rightarrow>
             Inr (assemble source (item\<lparr> content := content_encoded item \<rparr>) analysis)) \<and>
      property (assemble source (item\<lparr> content := content_encoded item \<rparr>) analysis) ''content''
        = content_encoded item)"
proof -
  have "snd (processItem e (source, item)) =
      (case analyzeContent e (title item) (content_encoded item) of
         Inl err \<Rightarrow> Inl err
       | Inr analysis \<Rightarrow>
           Inr (assemble source (item\<lparr> content := content_encoded item \<rparr>) analysis))"
    if "truthy (content_encoded item)"
    using that by (simp add: processItem_split resolveContent_encoded)
  then show ?thesis
    by (simp add: processItem_fst processFeeds_fst property_assemble js_or_def)
qed

text \<open>
  A candidate with encoded content and an unreachable link: nothing is scraped and the
  article carries the encoded content. A candidate with a link only is scraped.
\<close>

theorem encoded_content_is_not_scraped_witness:
  "truthy (content_encoded item1) \<and>
   processItem page_down (fox, item1) = ([], Inr article1) \<and>
   processItem world (fox, item2) = ([''https://news.example/2''], Inr article2) \<and>
   fst (processFeeds page_down [(fox, item1), (fox, item3)]) = []"
proof -
  have enc: "truthy (content_encoded item1)" by (simp add: truthy_def item1_def blank_def)
  have "analyzeContent page_down (title item1) (content_encoded item1) = Inr (Some fact)"
    by (simp add: analyzeContent_def page_down_def world_def)
  moreover have "assemble fox (item1\<lparr> content := content_encoded item1 \<rparr>) (Some fact) = article1"
    by (simp add: assemble_def fixture_defs js_or_def truthy_def)
  moreover have "truthy (link item2)" "\<not> truthy (content_encoded item2)" "\<not> truthy (link item3)"
    "default_empty (link item2) = ''https://news.example/2''"
    by (simp_all add: truthy_def default_empty_def fixture_defs)
  moreover have "snd (processItem world (fox, item2)) = Inr article2"
    by (simp add: run_defs fixture_defs)
  ultimately show ?thesis
    using encoded_content_is_not_scraped [of page_down fox item1 "[(fox, item1), (fox, item3)]"]
      encoded_content_is_not_scraped [of page_down fox item3 "[]"]
      encoded_content_is_not_scraped [of world fox item2 "[]"] enc
    by (simp add: prod_eq_iff)
qed

section \<open>Failures of a page fetch and of the analysis\<close>





lemma promise_all_append:
  "promise_all (ps @ qs) =
     (case promise_all ps of
        Inl err \<Rightarrow> Inl err
      | Inr xs \<Rightarrow> (case promise_all qs of Inl err \<Rightarrow> Inl err | Inr ys \<Rightarrow> Inr (xs @ ys)))"
  by (induction ps) (auto split: sum.splits)

lemma processFeeds_dropped:
  assumes "snd (processItem e x) = Inr a" "\<not> complete a"
  shows "snd (processFeeds e (before @ x # after)) = snd (processFeeds e (before @ after))"
  using assms by (simp add: processFeeds_snd promise_all_append split: sum.splits)

lemma assemble_no_analysis: "\<not> complete (assemble source item None)"
  by (simp add: complete_def assemble_def property_def truthy_def)





text \<open>
  Claim C5, as stated: a model output that does not fit the schema counts as a missing
  analysis of its candidate, and the other candidates are processed. It does not: the
  rejection of the completion call has no handler either, and rejects the batch and the
  run of the pipeline.
\<close>

theorem analysis_failure_counterexample:
  "llm off_schema ''Two'' ''Body two'' = Inl (Rejection ''schema'') \<and>
   snd (processFeeds off_schema [(fox, item1)]) = Inr [article1] \<and>
   snd (processFeeds off_schema [(fox, item1), (fox, item2)]) = Inl (Rejection ''schema'') \<and>
   update_GET off_schema bare = Inl (Rejection ''schema'')"
proof -
  have flag: "ENABLE_ARTICLE_UPDATE off_schema = Some ''true''"
    by (simp add: off_schema_def world_def)
  have parsed: "parseFeeds CONFIG off_schema = Inr [(fox, item1), (fox, item2)]"
    using parseFeeds_CONFIG [of off_schema "[item1, item2]"] by (simp add: off_schema_def world_def)
  have new: "filterExistingItems bare [(fox, item1), (fox, item2)] = Inr [(fox, item1), (fox, item2)]"
    using filterExistingItems_online [of bare "[(fox, item1), (fox, item2)]"]
    by (simp add: bare_def url_stored_def)
  have arts: "snd (processFeeds off_schema [(fox, item1), (fox, item2)]) = Inl (Rejection ''schema'')"
    by (simp add: run_defs fixture_defs)
  have "snd (processFeeds off_schema [(fox, item1)]) = Inr [article1]"
    by (simp add: run_defs fixture_defs)
  with update_GET_steps [OF flag parsed new arts] arts show ?thesis
    by (simp add: off_schema_def)
qed

text \<open>
  Claim C5, amended. A completion call that rejects, as it does on an output that does not
  fit the schema, makes \<^verbatim>\<open>processFeeds\<close> reject as a whole. A call that is answered with
  no parsed analysis (\<^verbatim>\<open>null\<close>) is a missing analysis of its candidate only: the result
  of the batch is the result of the batch without that candidate.
\<close>

theorem analysis_failure_rejects_batch:
  "((source, item) \<in> set feeds \<and> snd (resolveContent e item) = Inr resolved \<and>
    isl (analyzeContent e (title resolved) (content resolved))
      \<longrightarrow> isl (snd (processFeeds e feeds))) \<and>
   (snd (resolveContent e item) = Inr resolved \<and>
    analyzeContent e (title resolved) (content resolved) = Inr None
      \<longrightarrow> snd (processFeeds e (before @ (source, item) # after)) =
            snd (processFeeds e (before @ after)))"
proof (intro conjI impI)
  assume "(source, item) \<in> set feeds \<and> snd (resolveContent e item) = Inr resolved \<and>
    isl (analyzeContent e (title resolved) (content resolved))"
  then have "(source, item) \<in> set feeds" "isl (snd (processItem e (source, item)))"
    by (auto simp: processItem_split split: sum.splits)
  then show "isl (snd (processFeeds e feeds))"
    unfolding processFeeds_rejected by blast
next
  assume "snd (resolveContent e item) = Inr resolved \<and>
    analyzeContent e (title resolved) (content resolved) = Inr None"
  then have "snd (processItem e (source, item)) = Inr (assemble source resolved None)"
    by (simp add: processItem_split)
  from processFeeds_dropped [OF this assemble_no_analysis]
  show "snd (processFeeds e (before @ (source, item) # after)) =
      snd (processFeeds e (before @ after))" .
qed


theorem analysis_failure_rejects_batch_witness:
  "isl (snd (processFeeds off_schema [(fox, item1), (fox, item2)])) \<and>
   analyzeContent refusal (Some ''Two'') (Some ''Body two'') = Inr None \<and>
   snd (processFeeds refusal [(fox, item1), (fox, item2), (fox, item3)]) =
     Inr [article1, article3]"
proof -
  let ?resolved = "item2\<lparr> content := Some ''Body two'' \<rparr>"
  have res: "snd (resolveContent off_schema item2) = Inr ?resolved"
    "snd (resolveContent refusal item2) = Inr ?resolved"
    by (simp_all add: run_defs fixture_defs)
  have bad: "isl (analyzeContent off_schema (title ?resolved) (content ?resolved))"
    by (simp add: run_defs fixture_defs)
  have null: "analyzeContent refusal (title ?resolved) (content ?resolved) = Inr None"
    by (simp add: run_defs fixture_defs)
  have others: "snd (processFeeds refusal ([(fox, item1)] @ [(fox, item3)])) = Inr [article1, article3]"
    by (simp add: run_defs fixture_defs)
  from analysis_failure_rejects_batch
         [of fox item2 "[(fox, item1), (fox, item2)]" off_schema ?resolved]
       analysis_failure_rejects_batch
         [of fox item2 "[]" refusal ?resolved "[(fox, item1)]" "[(fox, item3)]"]
       res bad null others
  show ?thesis by (simp add: item2_def blank_def)
qed

section \<open>The INSERT statement\<close>

lemma insertValues_nth:
  "r < length rows \<Longrightarrow> c < length columns \<Longrightarrow>
   insertValues rows ! (r * length columns + c) = property (rows ! r) (columns ! c)"
proof (induction rows arbitrary: r)
  case Nil
  then show ?case by simp
next
  case (Cons row rows)
  show ?case
  proof (cases r)
    case 0
    with Cons.prems show ?thesis by (simp add: insertValues_def nth_append)
  next
    case (Suc r')
    with Cons.prems have "insertValues rows ! (r' * length columns + c) =
        property (rows ! r') (columns ! c)"
      by (intro Cons.IH) simp_all
    with Suc show ?thesis by (simp add: insertValues_def nth_append)
  qed
qed

lemma length_insertValues: "length (insertValues rows) = length rows * length columns"
  by (induction rows) (simp_all add: insertValues_def)

lemma digit_cases: "d < 10 \<Longrightarrow> d \<in> {0, 1, 2, 3, 4, 5, 6, 7, 8, 9::nat}"
  by auto

lemma digit_roundtrip:
  assumes "d < 10"
  shows "digit_val (digit_char d) = d" and "is_digit (digit_char d)"
    and "digit_char d \<noteq> CHR ''$''" and "digit_char d \<noteq> CHR ''(''" and "digit_char d \<noteq> CHR '')''"
  using digit_cases[OF assms]
  by (auto simp: digit_val_def digit_char_def is_digit_def)

lemma read_nat_snoc: "read_nat (ds @ [c]) = read_nat ds * 10 + digit_val c"
  by (simp add: read_nat_def)

lemma read_show_nat: "read_nat (show_nat n) = n"
proof (induction n rule: show_nat.induct)
  case (1 n)
  show ?case
  proof (cases "n < 10")
    case True
    then show ?thesis by (simp add: show_nat.simps [of n] read_nat_def digit_roundtrip)
  next
    case False
    with 1 have "read_nat (show_nat (n div 10)) = n div 10" by simp
    with False show ?thesis
      by (simp add: show_nat.simps [of n] read_nat_snoc digit_roundtrip)
  qed
qed

lemma show_nat_digits:
  "c \<in> set (show_nat n) \<Longrightarrow> is_digit c \<and> c \<noteq> CHR ''$'' \<and> c \<noteq> CHR ''('' \<and> c \<noteq> CHR '')''"
proof (induction n rule: show_nat.induct)
  case (1 n)
  show ?case
  proof (cases "n < 10")
    case True
    with 1(2) show ?thesis by (simp add: show_nat.simps [of n] digit_roundtrip)
  next
    case False
    with 1 show ?thesis
      by (auto simp: show_nat.simps [of n] digit_roundtrip)
  qed
qed

lemma placeholder_refs_skip:
  "\<forall>c\<in>set xs. c \<noteq> CHR ''$'' \<Longrightarrow> placeholder_refs (xs @ ys) = placeholder_refs ys"
  by (induction xs) auto

lemma placeholder_refs_one:
  assumes "rest = [] \<or> \<not> is_digit (hd rest)"
  shows "placeholder_refs (CHR ''$'' # show_nat k @ rest) = k # placeholder_refs rest"
proof -
  have "takeWhile is_digit (show_nat k @ rest) = show_nat k"
    using assms by (cases rest) (auto simp: takeWhile_append2 show_nat_digits takeWhile_eq_all_conv)
  moreover have "placeholder_refs (show_nat k @ rest) = placeholder_refs rest"
    by (rule placeholder_refs_skip) (auto dest: show_nat_digits)
  ultimately show ?thesis by (simp add: read_show_nat)
qed

lemma placeholder_refs_join_append:
  "rest = [] \<or> \<not> is_digit (hd rest) \<Longrightarrow>
   placeholder_refs (join '', '' (map (\<lambda>k. CHR ''$'' # show_nat k) ks) @ rest) =
     ks @ placeholder_refs rest"
proof (induction ks rule: induct_list012)
  case 1
  then show ?case by simp
next
  case (2 k)
  then show ?case using placeholder_refs_one [of rest k] by simp
next
  case (3 k k' ks)
  have "placeholder_refs
          (CHR ''$'' # show_nat k @
             '', '' @ join '', '' (map (\<lambda>k. CHR ''$'' # show_nat k) (k' # ks)) @ rest)
      = k # placeholder_refs
              ('', '' @ join '', '' (map (\<lambda>k. CHR ''$'' # show_nat k) (k' # ks)) @ rest)"
    by (rule placeholder_refs_one) (simp add: is_digit_def)
  with 3 show ?case by simp
qed

lemma placeholder_refs_join:
  "placeholder_refs (join '', '' (map (\<lambda>k. CHR ''$'' # show_nat k) ks)) = ks"
  using placeholder_refs_join_append [of "[]" ks] by simp

lemma length_columns: "length columns = 9"
  by (simp add: columns_def)

lemma rowPlaceholders_group: "rowPlaceholders r = ''('' @ rowGroup r @ '')''"
  by (simp add: rowPlaceholders_def rowGroup_def row_refs_def Let_def comp_def)

lemma set_join: "set (join sep xs) \<subseteq> set sep \<union> \<Union> (set ` set xs)"
  by (induction sep xs rule: join.induct) auto

lemma rowGroup_chars: "c \<in> set (rowGroup r) \<Longrightarrow> c \<noteq> CHR ''('' \<and> c \<noteq> CHR '')''"
proof -
  assume "c \<in> set (rowGroup r)"
  with set_join [of "'', ''" "map (\<lambda>k. CHR ''$'' # show_nat k) (row_refs r)"]
  have "c \<in> set '', '' \<union> \<Union> (set ` set (map (\<lambda>k. CHR ''$'' # show_nat k) (row_refs r)))"
    unfolding rowGroup_def by blast
  then have "c = CHR '','' \<or> c = CHR '' '' \<or> c = CHR ''$'' \<or> (\<exists>k. c \<in> set (show_nat k))"
    by (auto split: if_splits)
  then show ?thesis by (auto dest: show_nat_digits)
qed

lemma paren_groups_skip:
  "\<forall>c\<in>set xs. c \<noteq> CHR ''('' \<Longrightarrow> paren_groups (xs @ ys) = paren_groups ys"
  by (induction xs) auto

lemma paren_groups_group:
  assumes "\<forall>c\<in>set g. c \<noteq> CHR ''('' \<and> c \<noteq> CHR '')''"
  shows "paren_groups (CHR ''('' # g @ CHR '')'' # rest) = g # paren_groups rest"
proof -
  have "takeWhile (\<lambda>d. d \<noteq> CHR '')'') (g @ CHR '')'' # rest) = g"
    using assms by (simp add: takeWhile_append2)
  moreover have "paren_groups (g @ CHR '')'' # rest) = paren_groups (CHR '')'' # rest)"
    using assms by (intro paren_groups_skip) simp
  ultimately show ?thesis by simp
qed

lemma paren_groups_join:
  "\<forall>g\<in>set gs. \<forall>c\<in>set g. c \<noteq> CHR ''('' \<and> c \<noteq> CHR '')'' \<Longrightarrow>
   paren_groups (join '', '' (map (\<lambda>g. ''('' @ g @ '')'') gs)) = gs"
proof (induction gs rule: induct_list012)
  case 1
  then show ?case by simp
next
  case (2 g)
  then show ?case using paren_groups_group [of g "[]"] by simp
next
  case (3 g g' gs)
  have "paren_groups (CHR ''('' # g @ CHR '')'' # '', '' @ join '', '' (map (\<lambda>g. ''('' @ g @ '')'') (g' # gs)))
      = g # paren_groups ('', '' @ join '', '' (map (\<lambda>g. ''('' @ g @ '')'') (g' # gs)))"
    using 3(3) by (intro paren_groups_group) simp
  with 3 show ?case by simp
qed

lemma paren_groups_rows:
  "paren_groups (join '', '' (map rowPlaceholders rs)) = map rowGroup rs"
proof -
  have "map rowPlaceholders rs = map (\<lambda>g. ''('' @ g @ '')'') (map rowGroup rs)"
    by (simp add: rowPlaceholders_group)
  moreover have "\<forall>g\<in>set (map rowGroup rs). \<forall>c\<in>set g. c \<noteq> CHR ''('' \<and> c \<noteq> CHR '')''"
    using rowGroup_chars by auto
  then have "paren_groups (join '', '' (map (\<lambda>g. ''('' @ g @ '')'') (map rowGroup rs))) =
      map rowGroup rs"
    by (rule paren_groups_join)
  ultimately show ?thesis by (simp only:)
qed

lemma column_names_columns:
  "column_names [] ''url, title, publication, authors, date_published, content, source, headline, summary''
     = columns"
  by (simp add: columns_def)

lemma insertQuery_text:
  "insertQuery rows =
     ''INSERT INTO articles (url, title, publication, authors, date_published, content, source, headline, summary) VALUES ''
       @ join '', '' (map rowPlaceholders [0..<length rows])"
  by (simp add: insertQuery_def columns_def)

lemma paren_groups_insertQuery:
  "paren_groups (insertQuery rows) =
     ''url, title, publication, authors, date_published, content, source, headline, summary''
       # map rowGroup [0..<length rows]"
  by (simp add: insertQuery_text paren_groups_rows)

lemma placeholder_refs_rowGroup: "placeholder_refs (rowGroup r) = row_refs r"
  by (simp add: rowGroup_def placeholder_refs_join)

lemma zip_map_self: "zip xs (map f xs) = map (\<lambda>x. (x, f x)) xs"
  by (induction xs) auto

lemma bound_row:
  assumes "r < length rows"
  shows "zip columns (map (bound_param (insertValues rows)) (row_refs r)) =
         map (\<lambda>col. (col, property (rows ! r) col)) columns"
proof -
  have "bound_param (insertValues rows) (r * length columns + 1 + c) =
      property (rows ! r) (columns ! c)" if "c < length columns" for c
  proof -
    from assms have "Suc r * length columns \<le> length rows * length columns"
      by (intro mult_le_mono1) simp
    with that have "r * length columns + 1 + c \<le> length rows * length columns" by simp
    with insertValues_nth [of r rows c] assms that show ?thesis
      by (simp add: bound_param_def length_insertValues)
  qed
  then have "map (bound_param (insertValues rows)) (row_refs r) =
      map (\<lambda>c. property (rows ! r) (columns ! c)) [0..<length columns]"
    by (simp add: row_refs_def)
  also have "\<dots> = map (property (rows ! r)) (map (\<lambda>c. columns ! c) [0..<length columns])"
    by simp
  also have "\<dots> = map (property (rows ! r)) columns"
    by (simp only: map_nth)
  finally show ?thesis by (simp add: zip_map_self)
qed

lemma inserted_rows_insert:
  "inserted_rows (insertQuery rows) (insertValues rows) =
     map (\<lambda>row. map (\<lambda>col. (col, property row col)) columns) rows"
proof -
  have "map (\<lambda>g. zip columns (map (bound_param (insertValues rows)) (placeholder_refs g)))
          (map rowGroup [0..<length rows]) =
        map (\<lambda>r. map (\<lambda>col. (col, property (rows ! r) col)) columns) [0..<length rows]"
    by (simp add: placeholder_refs_rowGroup bound_row)
  also have "\<dots> = map (\<lambda>row. map (\<lambda>col. (col, property row col)) columns)
                    (map (\<lambda>r. rows ! r) [0..<length rows])"
    by simp
  also have "\<dots> = map (\<lambda>row. map (\<lambda>col. (col, property row col)) columns) rows"
    by (simp only: map_nth)
  finally show ?thesis
    by (simp add: inserted_rows_def paren_groups_insertQuery columns_def)
qed

section \<open>The batch persister\<close>

lemma placeholder_refs_rowPlaceholders: "placeholder_refs (rowPlaceholders r) = row_refs r"
  using placeholder_refs_join_append [of "'')''" "row_refs r"]
  by (simp add: rowPlaceholders_group rowGroup_def is_digit_def)

lemma row_refs_nth: "c < length columns \<Longrightarrow> row_refs r ! c = r * length columns + c + 1"
  by (simp add: row_refs_def)

lemma insertArticles_online:
  "rows \<noteq> [] \<Longrightarrow> online st \<Longrightarrow>
   insertArticles st rows =
     Inr (st\<lparr> articles := articles st @ map (\<lambda>row. map (\<lambda>col. (col, property row col)) columns) rows,
              writes := writes st @ [(insertQuery rows, insertValues rows)] \<rparr>)"
  by (simp add: insertArticles_def sql_query_def inserted_rows_insert)

lemma bound_param_aligned:
  assumes "r < length rows" "c < length columns"
  shows "bound_param (insertValues rows) (r * length columns + c + 1) =
         property (rows ! r) (columns ! c)"
proof -
  from assms(1) have "Suc r * length columns \<le> length rows * length columns"
    by (intro mult_le_mono1) simp
  with assms(2) have "r * length columns + c + 1 \<le> length rows * length columns" by simp
  with insertValues_nth [OF assms] show ?thesis
    by (simp add: bound_param_def length_insertValues)
qed

text \<open>
  Claim C9. With no row, \<^verbatim>\<open>insertArticles\<close> returns without touching storage. With rows,
  and the engine answering, it executes one statement: an \<^verbatim>\<open>INSERT\<close> into the nine
  columns with one group of placeholders per row. The placeholder at position \<open>c\<close> of the
  group of row \<open>r\<close> carries the number \<open>9 r + c + 1\<close>, and the parameter of that number is
  the value of row \<open>r\<close> for column \<open>c\<close>; hence the rows that the engine adds are the given
  rows, column by column.
\<close>

theorem insertArticles_single_insert:
  "insertArticles st [] = Inr st \<and>
   (rows \<noteq> [] \<and> online st \<longrightarrow>
      insertArticles st rows =
        Inr (st\<lparr> articles := articles st @
                     map (\<lambda>row. map (\<lambda>col. (col, property row col)) columns) rows,
                 writes := writes st @ [(insertQuery rows, insertValues rows)] \<rparr>)) \<and>
   insertQuery rows =
     ''INSERT INTO articles (url, title, publication, authors, date_published, content, source, headline, summary) VALUES ''
       @ join '', '' (map rowPlaceholders [0..<length rows]) \<and>
   (r < length rows \<and> c < length columns \<longrightarrow>
      placeholder_refs (rowPlaceholders r) ! c = r * length columns + c + 1 \<and>
      bound_param (insertValues rows) (placeholder_refs (rowPlaceholders r) ! c) =
        property (rows ! r) (columns ! c))"
  using insertArticles_online [of rows st] bound_param_aligned [of r rows c]
  by (simp add: insertArticles_def insertQuery_text placeholder_refs_rowPlaceholders row_refs_nth)

text \<open>Two articles: one statement, eighteen parameters, two new rows.\<close>

theorem insertArticles_single_insert_witness:
  "insertArticles bare [] = Inr bare \<and>
   online bare \<and>
   insertArticles bare [article1, article2] =
     Inr \<lparr> articles = [stored (Some ''https://news.example/1'') ''One'' ''Body one'',
                       stored (Some ''https://news.example/2'') ''Two'' ''Body two''],
           online = True,
           writes =
             [(''INSERT INTO articles (url, title, publication, authors, date_published, content, source, headline, summary) VALUES ($1, $2, $3, $4, $5, $6, $7, $8, $9), ($10, $11, $12, $13, $14, $15, $16, $17, $18)'',
               [Some ''https://news.example/1'', Some ''One'', Some ''Fox News'', None, None,
                Some ''Body one'', Some ''S'', Some ''H'', Some ''Sum'',
                Some ''https://news.example/2'', Some ''Two'', Some ''Fox News'', None, None,
                Some ''Body two'', Some ''S'', Some ''H'', Some ''Sum''])] \<rparr> \<and>
   placeholder_refs (rowPlaceholders 1) ! 5 = 15 \<and>
   columns ! 5 = ''content'' \<and>
   bound_param (insertValues [article1, article2]) 15 = Some ''Body two''"
proof -
  have q: "insertQuery [article1, article2] =
      ''INSERT INTO articles (url, title, publication, authors, date_published, content, source, headline, summary) VALUES ($1, $2, $3, $4, $5, $6, $7, $8, $9), ($10, $11, $12, $13, $14, $15, $16, $17, $18)''"
    by (simp add: text_defs)
  have v: "insertValues [article1, article2] =
      [Some ''https://news.example/1'', Some ''One'', Some ''Fox News'', None, None,
       Some ''Body one'', Some ''S'', Some ''H'', Some ''Sum'',
       Some ''https://news.example/2'', Some ''Two'', Some ''Fox News'', None, None,
       Some ''Body two'', Some ''S'', Some ''H'', Some ''Sum'']"
    by (simp add: text_defs fixture_defs)
  have rows: "map (\<lambda>row. map (\<lambda>col. (col, property row col)) columns) [article1, article2] =
      [stored (Some ''https://news.example/1'') ''One'' ''Body one'',
       stored (Some ''https://news.example/2'') ''Two'' ''Body two'']"
    by (simp add: text_defs fixture_defs stored_def)
  have h: "[article1, article2] \<noteq> []" "online bare" "(1::nat) < length [article1, article2]"
    "5 < length columns" "columns ! 5 = ''content''"
    "property ([article1, article2] ! 1) (columns ! 5) = Some ''Body two''"
    by (simp_all add: bare_def columns_def property_def fixture_defs)
  note t = insertArticles_single_insert [of bare "[article1, article2]" 1 5]
  from t have none: "insertArticles bare [] = Inr bare" by blast
  from t h(1,2) have one: "insertArticles bare [article1, article2] =
      Inr (bare\<lparr> articles := articles bare @
                     map (\<lambda>row. map (\<lambda>col. (col, property row col)) columns) [article1, article2],
                 writes := writes bare @
                     [(insertQuery [article1, article2], insertValues [article1, article2])] \<rparr>)"
    by blast
  from t h(3,4) have ref: "placeholder_refs (rowPlaceholders 1) ! 5 = 1 * length columns + 5 + 1"
    and par: "bound_param (insertValues [article1, article2]) (placeholder_refs (rowPlaceholders 1) ! 5) =
        property ([article1, article2] ! 1) (columns ! 5)"
    by blast+
  from ref have ref': "placeholder_refs (rowPlaceholders 1) ! 5 = 15"
    by (simp add: length_columns)
  from par have par': "bound_param (insertValues [article1, article2]) 15 = Some ''Body two''"
    by (simp only: ref' h(6))
  from one have one': "insertArticles bare [article1, article2] =
      Inr \<lparr> articles = [stored (Some ''https://news.example/1'') ''One'' ''Body one'',
                        stored (Some ''https://news.example/2'') ''Two'' ''Body two''],
            online = True,
            writes = [(insertQuery [article1, article2], insertValues [article1, article2])] \<rparr>"
    by (simp only: rows) (simp add: bare_def)
  show ?thesis
    using none one' ref' par' h(2,5) by (simp only: q v)
qed

section \<open>The published date\<close>

lemma processFeeds_articles:
  assumes "snd (processFeeds e feeds) = Inr arts" "a \<in> set arts"
  shows "\<exists>source item c analysis. (source, item) \<in> set feeds \<and>
           a = assemble source (item\<lparr> content := c \<rparr>) analysis"
proof -
  from processFeeds_member [OF assms] obtain source item where
    x: "(source, item) \<in> set feeds" "snd (processItem e (source, item)) = Inr a" by auto
  from processItem_Inr [OF x(2)] obtain resolved analysis where
    r: "snd (resolveContent e item) = Inr resolved" "a = assemble source resolved analysis" by auto
  from resolveContent_Inr [OF r(1)] r(2) x(1) show ?thesis by blast
qed

text \<open>
  Claim C10. An article that \<^verbatim>\<open>processFeeds\<close> returns has no property
  \<^verbatim>\<open>date_published\<close>, whatever dates its feed item carries, so the parameter bound for
  the column \<^verbatim>\<open>date_published\<close>, the fifth of the nine, is \<^verbatim>\<open>undefined\<close> in every row
  built from these articles.
\<close>

theorem processFeeds_no_date_published:
  assumes "snd (processFeeds e feeds) = Inr arts" and "r < length arts"
  shows "map_of (arts ! r) ''date_published'' = None \<and>
         columns ! 4 = ''date_published'' \<and>
         insertValues arts ! (r * length columns + 4) = None"
proof -
  from assms(2) have "arts ! r \<in> set arts" by simp
  from processFeeds_articles [OF assms(1) this] have
    absent: "map_of (arts ! r) ''date_published'' = None"
    by (auto simp: property_assemble)
  have col: "columns ! 4 = ''date_published''" by (simp add: columns_def)
  from assms(2) have "insertValues arts ! (r * length columns + 4) =
      property (arts ! r) (columns ! 4)"
    by (intro insertValues_nth) (simp_all add: length_columns)
  with absent col show ?thesis by (simp add: property_def)
qed


text \<open>An item with a published date.\<close>

theorem processFeeds_no_date_published_witness:
  "pubDate item1 = Some ''Mon, 02 Nov 2026 10:00:00 GMT'' \<and>
   snd (processFeeds world [(fox, item1)]) = Inr [article1] \<and>
   (0::nat) < length [article1] \<and>
   map_of article1 ''date_published'' = None \<and>
   insertValues [article1] ! 4 = None"
proof -
  have run: "snd (processFeeds world [(fox, item1)]) = Inr [article1]"
    by (simp add: run_defs fixture_defs)
  have len: "(0::nat) < length [article1]" by simp
  from processFeeds_no_date_published [OF run len] run
  show ?thesis by (simp add: item1_def blank_def)
qed


section \<open>The pipeline and the uniqueness of URLs\<close>

















end
